theory Spec2Isabelle
  imports Main
begin

section \<open>Data model\<close>

text \<open>
  A document is the JSON object the connectors publish and the server reconciles: a flat
  mapping from identifier to address. It is modelled by the list \<open>Object.entries\<close> yields,
  so the order in which the \<open>for ... of\<close> loops visit the entries is the order of the
  list. The keys of a JavaScript object are pairwise distinct; theorems that depend on it
  assume \<open>distinct (map fst d)\<close>. Values are strings, compared by \<open>!==\<close> as strings.
  Every entry is an own property of the object, also one whose key is the name of a
  member of \<open>Object.prototype\<close>: \<open>JSON.parse\<close> defines them all as own properties.
\<close>

type_synonym document = "(string \<times> string) list"

text \<open>
  A text (a gist body, the content of the local state file) is modelled by what
  \<open>JSON.parse\<close> does with it: it throws a \<open>SyntaxError\<close>, or it returns a document.
  \<open>JSON.stringify(d, null, 2)\<close> is the text \<open>Object d\<close>.
\<close>

datatype json_text = Malformed | Object document

datatype error =
    Failed_to_fetch_gists
  | Failed_to_fetch_gist_content
  | Failed_to_update_gist
  | Failed_to_create_gist
  | Failed_to_fetch_device_IP
  | Failed_to_add_UFW_rule
  | Failed_to_remove_UFW_rule
  | Failed_to_list_UFW_rules
  | SyntaxError
  | TypeError
  | RequestError
  | SaveConfigError

definition JSON_parse :: "json_text \<Rightarrow> error + document" where
  "JSON_parse t = (case t of Malformed \<Rightarrow> Inl SyntaxError | Object d \<Rightarrow> Inr d)"

text \<open>
  \<open>obj.hasOwnProperty(k)\<close> looks the method up on the object itself first. An object
  with an own key named \<open>hasOwnProperty\<close> shadows the method of \<open>Object.prototype\<close> by
  a string, and the call throws a \<open>TypeError\<close>.
\<close>

definition shadowed :: "document \<Rightarrow> bool" where
  "shadowed obj = (map_of obj ''hasOwnProperty'' \<noteq> None)"

definition hasOwnProperty :: "document \<Rightarrow> string \<Rightarrow> error + bool" where
  "hasOwnProperty obj k =
     (if shadowed obj then Inl TypeError else Inr (map_of obj k \<noteq> None))"

text \<open>
  A value in a template literal or as a property key: \<open>undefined\<close> becomes the string
  \<open>undefined\<close>.
\<close>

definition shown :: "string option \<Rightarrow> string" where
  "shown v = (case v of None \<Rightarrow> ''undefined'' | Some a \<Rightarrow> a)"

text \<open>
  The keys that are array indices (the canonical decimal numerals below \<open>2^32 - 1\<close>)
  are enumerated first, in ascending order, the other keys after them in the order of
  their creation.
\<close>

definition digit_value :: "char \<Rightarrow> nat" where
  "digit_value c = length (takeWhile (\<lambda>x. x \<noteq> c) ''0123456789'')"

definition array_index :: "string \<Rightarrow> nat option" where
  "array_index k =
     (let n = foldl (\<lambda>n c. 10 * n + digit_value c) 0 k in
      if k \<noteq> [] \<and> list_all (\<lambda>c. c \<in> set ''0123456789'') k
         \<and> (k = ''0'' \<or> hd k \<noteq> CHR ''0'') \<and> n < 4294967295
      then Some n else None)"

definition precedes :: "nat \<Rightarrow> string \<times> string \<Rightarrow> bool" where
  "precedes n e = (case array_index (fst e) of None \<Rightarrow> False | Some m \<Rightarrow> m < n)"

text \<open>
  \<open>obj[k] = v\<close>. An own key keeps its place and takes the value. A key the object does
  not have is created at its place in the enumeration, except \<open>__proto__\<close>: the
  assignment then reaches the setter of \<open>Object.prototype\<close>, which ignores a string,
  and the object has no more own properties than before.
\<close>

fun update_own :: "document \<Rightarrow> string \<Rightarrow> string \<Rightarrow> document" where
  "update_own [] k v = []"
| "update_own ((k', v') # obj) k v =
     (if k' = k then (k, v) # obj else (k', v') # update_own obj k v)"

definition create_own :: "document \<Rightarrow> string \<Rightarrow> string \<Rightarrow> document" where
  "create_own obj k v =
     (case array_index k of
        None \<Rightarrow> obj @ [(k, v)]
      | Some n \<Rightarrow> takeWhile (precedes n) obj @ (k, v) # dropWhile (precedes n) obj)"

definition assign :: "document \<Rightarrow> string \<Rightarrow> string \<Rightarrow> document" where
  "assign obj k v =
     (if map_of obj k \<noteq> None then update_own obj k v
      else if k = ''__proto__'' then obj
      else create_own obj k v)"

section \<open>The firewall tool\<close>

text \<open>
  The three shell commands of the two programs:
  \<^verbatim>\<open>sudo ufw allow from IP to any port PORT\<close>,
  \<^verbatim>\<open>sudo ufw delete VERDICT from IP to any port PORT\<close> and
  \<^verbatim>\<open>sudo ufw status numbered\<close>.
  A tool is any function that runs a command on the state \<open>'w\<close> of the machine and
  says whether the command exited with status 0 (a non-zero status makes the awaited
  \<^verbatim>\<open>$`...`\<close> throw).
\<close>

datatype verdict = Allow | Deny

datatype cmd =
    Ufw_allow string nat
  | Ufw_delete verdict string nat
  | Ufw_status_numbered

type_synonym 'w tool = "cmd \<Rightarrow> 'w \<Rightarrow> bool \<times> 'w"

text \<open>
  A reference tool, after ufw(8): the state is the table of user rules; \<open>ufw RULE\<close>
  appends the rule unless the table has it, \<open>ufw delete RULE\<close> removes that rule and
  leaves every other one; each command exits with status 0.
\<close>

type_synonym table = "(verdict \<times> string \<times> nat) list"

fun ufw :: "table tool" where
  "ufw (Ufw_allow ip port) t =
     (True, if (Allow, ip, port) \<in> set t then t else t @ [(Allow, ip, port)])"
| "ufw (Ufw_delete v ip port) t = (True, removeAll (v, ip, port) t)"
| "ufw Ufw_status_numbered t = (True, t)"

text \<open>The reference tool, except that the commands in \<open>bad\<close> exit with an error and no effect.\<close>

definition failing :: "cmd list \<Rightarrow> table tool" where
  "failing bad c t = (if c \<in> set bad then (False, t) else ufw c t)"

text \<open>A tool that runs nothing and records the commands it is given.\<close>

definition recording :: "cmd list tool" where
  "recording c w = (True, w @ [c])"

subsection \<open>\<open>UFWManager\<close> (ip.js)\<close>

definition addRule :: "'w tool \<Rightarrow> nat \<Rightarrow> string \<Rightarrow> 'w \<Rightarrow> (error + unit) \<times> 'w" where
  "addRule sh port ip w =
     (case sh (Ufw_allow ip port) w of
        (True, w') \<Rightarrow> (Inr (), w')
      | (False, w') \<Rightarrow> (Inl Failed_to_add_UFW_rule, w'))"

definition removeRule :: "'w tool \<Rightarrow> nat \<Rightarrow> string \<Rightarrow> 'w \<Rightarrow> (error + unit) \<times> 'w" where
  "removeRule sh port ip w =
     (case sh (Ufw_delete Allow ip port) w of
        (True, w') \<Rightarrow> (Inr (), w')
      | (False, w') \<Rightarrow> (Inl Failed_to_remove_UFW_rule, w'))"

definition listRules :: "'w tool \<Rightarrow> 'w \<Rightarrow> (error + unit) \<times> 'w" where
  "listRules sh w =
     (case sh Ufw_status_numbered w of
        (True, w') \<Rightarrow> (Inr (), w')
      | (False, w') \<Rightarrow> (Inl Failed_to_list_UFW_rules, w'))"

subsection \<open>\<open>addUFWRule\<close>, \<open>removeUFWRule\<close> (tui.js)\<close>

text \<open>
  The configuration object of tui.js, as far as the functions below read it.
  \<open>setupWizard\<close> saves the name entered for a connector under \<open>identifier\<close>, here \<open>cfg_identifier\<close> (\<open>null\<close>
  for a server) and the port of a server under \<open>sshPort\<close>; no function of the
  program sets a property \<open>domain\<close>, so \<open>cfg_domain\<close>, which stands for
  \<open>config.domain\<close>, is \<open>None\<close> (\<open>undefined\<close>) in every configuration the program
  saves. \<open>sshPort\<close> is read by the two firewall functions only.
\<close>

record config =
  cfg_identifier :: "string option"
  cfg_domain :: "string option"
  sshPort :: nat

definition addUFWRule :: "'w tool \<Rightarrow> string \<Rightarrow> config \<Rightarrow> 'w \<Rightarrow> (error + unit) \<times> 'w" where
  "addUFWRule sh ip cfg w =
     (case sh (Ufw_allow ip (sshPort cfg)) w of
        (True, w') \<Rightarrow> (Inr (), w')
      | (False, w') \<Rightarrow> (Inl Failed_to_add_UFW_rule, w'))"

definition removeUFWRule :: "'w tool \<Rightarrow> string \<Rightarrow> config \<Rightarrow> 'w \<Rightarrow> (error + unit) \<times> 'w" where
  "removeUFWRule sh oldIp cfg w =
     (case sh (Ufw_delete Deny oldIp (sshPort cfg)) w of
        (True, w') \<Rightarrow> (Inr (), w')
      | (False, w') \<Rightarrow> (Inl Failed_to_remove_UFW_rule, w'))"

section \<open>The remote store\<close>

text \<open>
  What the server and the one-shot connector of ip.js see of the store:
  \<open>getAllGists\<close> throws, or no gist holds \<open>config.json\<close>, or the first gist that does
  is found; fetching its raw url throws, or yields a text.
\<close>

datatype raw = Raw_unreachable | Raw_text json_text

datatype gists = Gists_unreachable | No_config_gist | Config_gist raw

text \<open>\<open>getAllGists\<close> followed by \<open>gists.find(g => g.files['config.json'])\<close>.\<close>

definition getAllGists :: "gists \<Rightarrow> error + raw option" where
  "getAllGists gh =
     (case gh of
        Gists_unreachable \<Rightarrow> Inl Failed_to_fetch_gists
      | No_config_gist \<Rightarrow> Inr None
      | Config_gist g \<Rightarrow> Inr (Some g))"

definition getGistContent :: "raw \<Rightarrow> error + document" where
  "getGistContent gist =
     (case gist of
        Raw_unreachable \<Rightarrow> Inl Failed_to_fetch_gist_content
      | Raw_text t \<Rightarrow> (case JSON_parse t of Inl parseError \<Rightarrow> Inr [] | Inr d \<Rightarrow> Inr d))"

section \<open>The server pass (\<open>serverMode\<close>, ip.js)\<close>

text \<open>
  An operation names the identifier it is issued for and the address it is about.
  The pass records every operation it issues, with its outcome (\<open>True\<close>: the command
  succeeded), and every line it writes with \<open>console.error\<close> inside the two loops.
\<close>

datatype op = Add string string | Remove string string

fun op_id :: "op \<Rightarrow> string" where
  "op_id (Add d a) = d"
| "op_id (Remove d a) = d"

datatype failure =
    Failed_to_update_rules_for string error
  | Failed_to_remove_old_rule_for string error

fun failure_id :: "failure \<Rightarrow> string" where
  "failure_id (Failed_to_update_rules_for d e) = d"
| "failure_id (Failed_to_remove_old_rule_for d e) = d"

record 'w run =
  fw :: 'w
  attempted :: "(op \<times> bool) list"
  failures :: "failure list"

definition issue :: "'w tool \<Rightarrow> nat \<Rightarrow> op \<Rightarrow> 'w run \<Rightarrow> (error + unit) \<times> 'w run" where
  "issue sh port c s =
     (case (case c of Add d ip \<Rightarrow> addRule sh port ip (fw s)
                    | Remove d ip \<Rightarrow> removeRule sh port ip (fw s)) of
        (r, w') \<Rightarrow> (r, s\<lparr>fw := w', attempted := attempted s @ [(c, \<not> isl r)]\<rparr>))"

text \<open>
  The body of the first loop, with its \<open>try\<close>/\<open>catch\<close>: a \<open>TypeError\<close> of
  \<open>oldData.hasOwnProperty(domain)\<close> is caught like the failure of a firewall command.
\<close>

definition update_entry ::
    "'w tool \<Rightarrow> nat \<Rightarrow> document \<Rightarrow> string \<times> string \<Rightarrow> 'w run \<Rightarrow> 'w run" where
  "update_entry sh port oldData e s =
     (case e of (domain, ip) \<Rightarrow>
        (case
           (case hasOwnProperty oldData domain of
              Inl err \<Rightarrow> (Inl err, s)
            | Inr has \<Rightarrow>
                if \<not> has then issue sh port (Add domain ip) s
                else if map_of oldData domain \<noteq> Some ip then
                  (case issue sh port (Remove domain (shown (map_of oldData domain))) s of
                     (Inl err, s') \<Rightarrow> (Inl err, s')
                   | (Inr u, s') \<Rightarrow> issue sh port (Add domain ip) s')
                else (Inr (), s))
         of
           (Inl err, s') \<Rightarrow>
             s'\<lparr>failures := failures s' @ [Failed_to_update_rules_for domain err]\<rparr>
         | (Inr u, s') \<Rightarrow> s'))"

text \<open>
  The body of the second loop. \<open>newData.hasOwnProperty(oldDomain)\<close> is evaluated
  outside the inner \<open>try\<close>: its \<open>TypeError\<close> leaves the loop and the pass.
\<close>

definition remove_entry ::
    "'w tool \<Rightarrow> nat \<Rightarrow> document \<Rightarrow> string \<times> string \<Rightarrow> 'w run \<Rightarrow> error + 'w run" where
  "remove_entry sh port newData e s =
     (case e of (oldDomain, oldIp) \<Rightarrow>
        (case hasOwnProperty newData oldDomain of
           Inl err \<Rightarrow> Inl err
         | Inr has \<Rightarrow>
             if \<not> has then
               (case issue sh port (Remove oldDomain oldIp) s of
                  (Inl err, s') \<Rightarrow>
                    Inr (s'\<lparr>failures :=
                           failures s' @ [Failed_to_remove_old_rule_for oldDomain err]\<rparr>)
                | (Inr u, s') \<Rightarrow> Inr s')
             else Inr s))"

text \<open>The second loop: it stops at the first turn that throws, with the state reached.\<close>

fun remove_loop ::
    "'w tool \<Rightarrow> nat \<Rightarrow> document \<Rightarrow> document \<Rightarrow> 'w run \<Rightarrow> error option \<times> 'w run" where
  "remove_loop sh port newData [] s = (None, s)"
| "remove_loop sh port newData (e # es) s =
     (case remove_entry sh port newData e s of
        Inl err \<Rightarrow> (Some err, s)
      | Inr s' \<Rightarrow> remove_loop sh port newData es s')"

text \<open>
  Loading the local state: the file is absent (\<open>None\<close>), or \<open>JSON.parse\<close> throws and the
  \<open>catch\<close> keeps \<open>oldData = {}\<close>, or it holds a document.
\<close>

definition load_state :: "json_text option \<Rightarrow> document" where
  "load_state stateFile =
     (case stateFile of
        None \<Rightarrow> []
      | Some t \<Rightarrow> (case JSON_parse t of Inl err \<Rightarrow> [] | Inr d \<Rightarrow> d))"

datatype outcome = Completed | No_configuration_gist_found | Aborted error

record 'w result =
  outcome :: outcome
  state_file :: "json_text option"
  trace :: "'w run"

text \<open>
  \<open>serverMode\<close> from ``Get gist data'' on: the port has been read and the token
  validated. \<open>localStateFile\<close> is the content of \<open>ufw-state.json\<close> before the pass, the
  result holds its content after the pass. Writing the file is taken to succeed.
  An error that leaves the second loop reaches the outer \<open>catch\<close>: the file is not
  written and the rules are not listed.
\<close>

definition serverMode ::
    "'w tool \<Rightarrow> nat \<Rightarrow> gists \<Rightarrow> json_text option \<Rightarrow> 'w \<Rightarrow> 'w result" where
  "serverMode sh port gh localStateFile w =
     (let s0 = \<lparr>fw = w, attempted = [], failures = []\<rparr> in
      case getAllGists gh of
        Inl err \<Rightarrow> \<lparr>outcome = Aborted err, state_file = localStateFile, trace = s0\<rparr>
      | Inr None \<Rightarrow>
          \<lparr>outcome = No_configuration_gist_found, state_file = localStateFile, trace = s0\<rparr>
      | Inr (Some configGist) \<Rightarrow>
          (case getGistContent configGist of
             Inl err \<Rightarrow> \<lparr>outcome = Aborted err, state_file = localStateFile, trace = s0\<rparr>
           | Inr newData \<Rightarrow>
               (let oldData = load_state localStateFile;
                    s1 = fold (update_entry sh port oldData) newData s0
                in case remove_loop sh port newData oldData s1 of
                     (Some err, s2) \<Rightarrow>
                       \<lparr>outcome = Aborted err, state_file = localStateFile, trace = s2\<rparr>
                   | (None, s2) \<Rightarrow>
                       (case listRules sh (fw s2) of
                          (Inl err, w') \<Rightarrow>
                            \<lparr>outcome = Aborted err, state_file = Some (Object newData),
                             trace = s2\<lparr>fw := w'\<rparr>\<rparr>
                        | (Inr u, w') \<Rightarrow>
                            \<lparr>outcome = Completed, state_file = Some (Object newData),
                             trace = s2\<lparr>fw := w'\<rparr>\<rparr>))))"

section \<open>The connector pass of ip.js (\<open>connectorMode\<close>)\<close>

text \<open>
  \<open>connectorMode\<close> from ``Get current IP'' on: the token has been validated and the
  identifier read. The network is what the pass meets: the answer of the address service
  (\<open>None\<close>: the request throws), the store, and whether \<open>PATCH /gists/{id}\<close> and
  \<open>POST /gists\<close> succeed. The result lists the writes the pass sent to the store.
\<close>

record net =
  ipify :: "string option"
  github :: gists
  patch_ok :: bool
  post_ok :: bool

datatype store_write = Update_gist document | Create_gist document

datatype publication = Updated_IP_in_gist | Created_new_gist | Publication_failed error

record published =
  publication :: publication
  written :: "store_write list"

definition getDeviceIp :: "net \<Rightarrow> error + string" where
  "getDeviceIp n = (case ipify n of None \<Rightarrow> Inl Failed_to_fetch_device_IP | Some ip \<Rightarrow> Inr ip)"

definition updateGist :: "net \<Rightarrow> document \<Rightarrow> error + unit" where
  "updateGist n content = (if patch_ok n then Inr () else Inl Failed_to_update_gist)"

definition createGist :: "net \<Rightarrow> string \<Rightarrow> string \<Rightarrow> error + unit" where
  "createGist n domain ip = (if post_ok n then Inr () else Inl Failed_to_create_gist)"

definition connectorMode :: "string \<Rightarrow> net \<Rightarrow> published" where
  "connectorMode domain n =
     (case getDeviceIp n of
        Inl err \<Rightarrow> \<lparr>publication = Publication_failed err, written = []\<rparr>
      | Inr ip \<Rightarrow>
          (case getAllGists (github n) of
             Inl err \<Rightarrow> \<lparr>publication = Publication_failed err, written = []\<rparr>
           | Inr (Some configGist) \<Rightarrow>
               (case getGistContent configGist of
                  Inl err \<Rightarrow> \<lparr>publication = Publication_failed err, written = []\<rparr>
                | Inr currentContent \<Rightarrow>
                    (let content = assign currentContent domain ip in
                     case updateGist n content of
                       Inl err \<Rightarrow>
                         \<lparr>publication = Publication_failed err, written = [Update_gist content]\<rparr>
                     | Inr u \<Rightarrow>
                         \<lparr>publication = Updated_IP_in_gist, written = [Update_gist content]\<rparr>))
           | Inr None \<Rightarrow>
               (case createGist n domain ip of
                  Inl err \<Rightarrow>
                    \<lparr>publication = Publication_failed err,
                     written = [Create_gist [(domain, ip)]]\<rparr>
                | Inr u \<Rightarrow>
                    \<lparr>publication = Created_new_gist, written = [Create_gist [(domain, ip)]]\<rparr>)))"

section \<open>The connector pass of tui.js (\<open>updateIP\<close>)\<close>

text \<open>
  \<open>lastIP\<close> and \<open>isUpdating\<close> are the variables of \<open>runConnectorNode\<close> that \<open>updateIP\<close>
  reads and writes. The network of a tick: the answer of the address service,
  the answer of \<open>octokit.gists.get\<close> (it throws, or the gist has a content, \<open>None\<close> for
  an empty one), and whether \<open>octokit.gists.update\<close> and \<open>saveConfig\<close> succeed.
  \<open>set_calls\<close> lists the documents the tick sent to \<open>octokit.gists.update\<close>.
  The key the tick assigns is \<open>config.domain\<close>, as line 641 has it.
\<close>

record connector =
  lastIP :: string
  isUpdating :: bool

datatype gist_get = Get_throws | Content "json_text option"

record tick_net =
  ip_answer :: "string option"
  gist_answer :: gist_get
  update_ok :: bool
  save_ok :: bool

datatype report = Skipped | IP_unchanged | IP_updated | Tick_failed error

record tick =
  after :: connector
  set_calls :: "document list"
  report :: report

text \<open>\<open>JSON.parse(gist.data.files[GIST_FILENAME].content || '{}')\<close> on the answer.\<close>

definition get_content :: "gist_get \<Rightarrow> error + document" where
  "get_content g =
     (case g of
        Get_throws \<Rightarrow> Inl RequestError
      | Content c \<Rightarrow> JSON_parse (case c of None \<Rightarrow> Object [] | Some t \<Rightarrow> t))"

definition updateIP :: "config \<Rightarrow> tick_net \<Rightarrow> connector \<Rightarrow> tick" where
  "updateIP cfg n st =
     (if isUpdating st then \<lparr>after = st, set_calls = [], report = Skipped\<rparr>
      else
        case ip_answer n of
          None \<Rightarrow>
            \<lparr>after = st\<lparr>isUpdating := False\<rparr>, set_calls = [],
             report = Tick_failed RequestError\<rparr>
        | Some ip \<Rightarrow>
            if ip = lastIP st then
              \<lparr>after = st\<lparr>isUpdating := False\<rparr>, set_calls = [], report = IP_unchanged\<rparr>
            else
              (let st' = st\<lparr>lastIP := ip, isUpdating := False\<rparr> in
               case get_content (gist_answer n) of
                 Inl err \<Rightarrow> \<lparr>after = st', set_calls = [], report = Tick_failed err\<rparr>
               | Inr currentContent \<Rightarrow>
                   (let content = assign currentContent (shown (cfg_domain cfg)) ip in
                    if \<not> update_ok n then
                      \<lparr>after = st', set_calls = [content], report = Tick_failed RequestError\<rparr>
                    else if \<not> save_ok n then
                      \<lparr>after = st', set_calls = [content],
                       report = Tick_failed SaveConfigError\<rparr>
                    else \<lparr>after = st', set_calls = [content], report = IP_updated\<rparr>)))"

section \<open>The plan of the specification\<close>

text \<open>
  The operations the specification plans for one identifier, from its address in the
  checkpoint and its address in the desired document: an add for a new identifier,
  remove-old-then-add-new for a changed address, a remove for a deleted identifier,
  nothing otherwise.
\<close>

definition planned :: "document \<Rightarrow> document \<Rightarrow> string \<Rightarrow> op list" where
  "planned checkpoint desired d =
     (case (map_of checkpoint d, map_of desired d) of
        (None, None) \<Rightarrow> []
      | (None, Some a) \<Rightarrow> [Add d a]
      | (Some old, Some a) \<Rightarrow> if old \<noteq> a then [Remove d old, Add d a] else []
      | (Some old, None) \<Rightarrow> [Remove d old])"

text \<open>The operations of a trace that were issued for identifier \<open>d\<close>, in order.\<close>

definition about :: "string \<Rightarrow> (op \<times> bool) list \<Rightarrow> (op \<times> bool) list" where
  "about d tr = filter (\<lambda>x. op_id (fst x) = d) tr"

text \<open>
  A trace \<open>xs\<close> follows the plan \<open>p\<close> of an identifier when it attempts every operation
  of the plan in order, a remove that is followed by an add having succeeded; or when
  the plan is a remove followed by an add and the trace is the failed remove alone.
\<close>

definition follows :: "op list \<Rightarrow> (op \<times> bool) list \<Rightarrow> bool" where
  "follows p xs =
     ((map fst xs = p \<and> (length p = 2 \<longrightarrow> snd (hd xs)))
      \<or> (length p = 2 \<and> xs = [(hd p, False)]))"

text \<open>The shell command an operation runs, and the error its failure raises.\<close>

fun command :: "nat \<Rightarrow> op \<Rightarrow> cmd" where
  "command port (Add d ip) = Ufw_allow ip port"
| "command port (Remove d ip) = Ufw_delete Allow ip port"

fun op_error :: "op \<Rightarrow> error" where
  "op_error (Add d ip) = Failed_to_add_UFW_rule"
| "op_error (Remove d ip) = Failed_to_remove_UFW_rule"

text \<open>What one turn of the first loop may add to the trace for the entry \<open>(d, ip)\<close>.\<close>

definition entry_steps :: "document \<Rightarrow> string \<Rightarrow> string \<Rightarrow> (op \<times> bool) list \<Rightarrow> bool" where
  "entry_steps oldData d ip xs =
     (if shadowed oldData then xs = []
      else
        case map_of oldData d of
          None \<Rightarrow> (\<exists>ok. xs = [(Add d ip, ok)])
        | Some old \<Rightarrow>
            if old = ip then xs = []
            else xs = [(Remove d old, False)]
               \<or> (\<exists>ok. xs = [(Remove d old, True), (Add d ip, ok)]))"

text \<open>What one turn of the second loop may add to the trace for the entry \<open>(d, old)\<close>.\<close>

definition removal_steps :: "document \<Rightarrow> string \<Rightarrow> string \<Rightarrow> (op \<times> bool) list \<Rightarrow> bool" where
  "removal_steps newData d old xs =
     (if shadowed newData \<or> map_of newData d \<noteq> None then xs = []
      else (\<exists>ok. xs = [(Remove d old, ok)]))"

text \<open>Every recorded failure line belongs to a failed operation, and conversely, in order.\<close>

definition recorded :: "'w run \<Rightarrow> bool" where
  "recorded s =
     (map failure_id (failures s) =
        map (\<lambda>x. op_id (fst x)) (filter (\<lambda>x. \<not> snd x) (attempted s)))"

text \<open>Every failed operation has a failure line for its identifier.\<close>

definition logged :: "'w run \<Rightarrow> bool" where
  "logged s =
     (\<forall>x\<in>set (attempted s). \<not> snd x \<longrightarrow> op_id (fst x) \<in> failure_id ` set (failures s))"

text \<open>The state after one turn of the second loop, thrown or not.\<close>

definition remove_turn ::
    "'w tool \<Rightarrow> nat \<Rightarrow> document \<Rightarrow> string \<times> string \<Rightarrow> 'w run \<Rightarrow> 'w run" where
  "remove_turn sh port newData e s =
     (case remove_entry sh port newData e s of Inl err \<Rightarrow> s | Inr s' \<Rightarrow> s')"

text \<open>The state the two loops reach from the firewall state \<open>w\<close> and an empty trace.\<close>

definition loops :: "'w tool \<Rightarrow> nat \<Rightarrow> document \<Rightarrow> document \<Rightarrow> 'w \<Rightarrow> 'w run" where
  "loops sh port oldData newData w =
     fold (remove_turn sh port newData) oldData
       (fold (update_entry sh port oldData) newData \<lparr>fw = w, attempted = [], failures = []\<rparr>)"

text \<open>The example of the specification's section on testable properties.\<close>

definition example_checkpoint :: document where
  "example_checkpoint = [(''a'', ''1.1.1.1''), (''b'', ''2.2.2.2'')]"

definition example_desired :: document where
  "example_desired = [(''a'', ''1.1.1.1''), (''b'', ''3.3.3.3''), (''c'', ''4.4.4.4'')]"

definition example_store :: gists where
  "example_store = Config_gist (Raw_text (Object example_desired))"

definition example_table :: table where
  "example_table = [(Allow, ''1.1.1.1'', 22), (Allow, ''2.2.2.2'', 22)]"

definition example_config :: config where
  "example_config = \<lparr>cfg_identifier = Some ''laptop'', cfg_domain = None, sshPort = 22\<rparr>"

text \<open>A checkpoint and a fetched document with an identifier named \<open>hasOwnProperty\<close>.\<close>

definition plain_checkpoint :: document where
  "plain_checkpoint = [(''x'', ''1.1.1.1'')]"

definition shadowing_desired :: document where
  "shadowing_desired = [(''hasOwnProperty'', ''2.2.2.2'')]"

lemmas pass_defs =
  serverMode_def getAllGists_def getGistContent_def JSON_parse_def load_state_def
  update_entry_def remove_entry_def issue_def addRule_def removeRule_def listRules_def
  hasOwnProperty_def shadowed_def shown_def failing_def Let_def
  example_checkpoint_def example_desired_def example_store_def example_table_def
  plain_checkpoint_def shadowing_desired_def

section \<open>Lemmas on one operation and one loop turn\<close>

lemma issue_eq:
  "issue sh port c s =
     (if fst (sh (command port c) (fw s)) then Inr () else Inl (op_error c),
      s\<lparr>fw := snd (sh (command port c) (fw s)),
        attempted := attempted s @ [(c, fst (sh (command port c) (fw s)))]\<rparr>)"
  by (cases c; cases "sh (command port c) (fw s)")
     (auto simp: issue_def addRule_def removeRule_def split: bool.splits)

lemma update_entry_steps:
  "\<exists>xs. attempted (update_entry sh port old (d, ip) s) = attempted s @ xs
      \<and> entry_steps old d ip xs
      \<and> (\<not> shadowed old \<longrightarrow>
           map failure_id (failures (update_entry sh port old (d, ip) s)) =
             map failure_id (failures s) @ map (\<lambda>x. op_id (fst x)) (filter (\<lambda>x. \<not> snd x) xs))
      \<and> (\<forall>x\<in>set xs. \<not> snd x \<longrightarrow>
            op_id (fst x) \<in> failure_id ` set (failures (update_entry sh port old (d, ip) s)))
      \<and> set (failures s) \<subseteq> set (failures (update_entry sh port old (d, ip) s))
      \<and> ((\<forall>c w. fst (sh c w)) \<longrightarrow> (\<forall>x\<in>set xs. snd x))"
proof (cases "shadowed old")
  case True
  then show ?thesis
    by (auto simp: update_entry_def hasOwnProperty_def entry_steps_def)
next
  case plain: False
  show ?thesis
  proof (cases "map_of old d")
    case None
    show ?thesis
      by (rule exI[of _ "[(Add d ip, fst (sh (Ufw_allow ip port) (fw s)))]"])
         (auto simp add: update_entry_def hasOwnProperty_def issue_eq entry_steps_def plain None)
  next
    case (Some a)
    show ?thesis
    proof (cases "a = ip")
      case True
      with Some plain show ?thesis
        by (auto simp: update_entry_def hasOwnProperty_def entry_steps_def)
    next
      case changed: False
      show ?thesis
      proof (cases "fst (sh (Ufw_delete Allow a port) (fw s))")
        case True
        show ?thesis
          by (rule exI[of _ "[(Remove d a, True),
                (Add d ip, fst (sh (Ufw_allow ip port) (snd (sh (Ufw_delete Allow a port) (fw s)))))]"])
             (auto simp add: update_entry_def hasOwnProperty_def shown_def issue_eq entry_steps_def
                plain Some changed True)
      next
        case False
        then have "\<not> (\<forall>c w. fst (sh c w))" by blast
        with False show ?thesis
          by (intro exI[of _ "[(Remove d a, False)]"])
             (auto simp add: update_entry_def hasOwnProperty_def shown_def issue_eq
                entry_steps_def plain Some changed)
      qed
    qed
  qed
qed

lemma remove_turn_steps:
  "\<exists>xs. attempted (remove_turn sh port new (d, a) s) = attempted s @ xs
      \<and> removal_steps new d a xs
      \<and> map failure_id (failures (remove_turn sh port new (d, a) s)) =
          map failure_id (failures s) @ map (\<lambda>x. op_id (fst x)) (filter (\<lambda>x. \<not> snd x) xs)
      \<and> (\<forall>x\<in>set xs. \<not> snd x \<longrightarrow>
            op_id (fst x) \<in> failure_id ` set (failures (remove_turn sh port new (d, a) s)))
      \<and> set (failures s) \<subseteq> set (failures (remove_turn sh port new (d, a) s))
      \<and> ((\<forall>c w. fst (sh c w)) \<longrightarrow> (\<forall>x\<in>set xs. snd x))"
proof (cases "shadowed new \<or> map_of new d \<noteq> None")
  case True
  then show ?thesis
    by (auto simp: remove_turn_def remove_entry_def hasOwnProperty_def removal_steps_def)
next
  case False
  show ?thesis
    by (rule exI[of _ "[(Remove d a, fst (sh (Ufw_delete Allow a port) (fw s)))]"])
       (use False in \<open>auto simp add: remove_turn_def remove_entry_def hasOwnProperty_def issue_eq
          removal_steps_def\<close>)
qed

lemma entry_steps_ids: "entry_steps old d ip xs \<Longrightarrow> \<forall>x\<in>set xs. op_id (fst x) = d"
  by (auto simp: entry_steps_def split: option.splits if_splits)

lemma removal_steps_ids: "removal_steps new d a xs \<Longrightarrow> \<forall>x\<in>set xs. op_id (fst x) = d"
  by (auto simp: removal_steps_def split: if_splits)

lemma remove_entry_shadowed: "shadowed new \<Longrightarrow> remove_entry sh port new e s = Inl TypeError"
  by (cases e) (simp add: remove_entry_def hasOwnProperty_def)

lemma remove_entry_plain:
  "\<not> shadowed new \<Longrightarrow> remove_entry sh port new e s = Inr (remove_turn sh port new e s)"
  by (cases e) (simp add: remove_turn_def remove_entry_def hasOwnProperty_def issue_eq)

lemma remove_turn_shadowed: "shadowed new \<Longrightarrow> remove_turn sh port new e s = s"
  by (simp add: remove_turn_def remove_entry_shadowed)

lemma fold_turn_shadowed: "shadowed new \<Longrightarrow> fold (remove_turn sh port new) es s = s"
  by (induction es) (simp_all add: remove_turn_shadowed)

lemma remove_loop_plain:
  "\<not> shadowed new \<Longrightarrow>
   remove_loop sh port new es s = (None, fold (remove_turn sh port new) es s)"
  by (induction es arbitrary: s) (simp_all add: remove_entry_plain)

lemma remove_loop_shadowed:
  "shadowed new \<Longrightarrow>
   remove_loop sh port new es s = (if es = [] then None else Some TypeError, s)"
  by (cases es) (simp_all add: remove_entry_shadowed)

lemma remove_loop_eq:
  "remove_loop sh port new es s =
     (if shadowed new \<and> es \<noteq> [] then Some TypeError else None,
      fold (remove_turn sh port new) es s)"
  by (cases "shadowed new")
     (simp_all add: remove_loop_plain remove_loop_shadowed fold_turn_shadowed)

lemma about_append: "about d (xs @ ys) = about d xs @ about d ys"
  by (simp add: about_def)

lemma about_same: "\<forall>x\<in>set xs. op_id (fst x) = d \<Longrightarrow> about d xs = xs"
  by (simp add: about_def filter_id_conv)

lemma about_other: "\<forall>x\<in>set xs. op_id (fst x) = d' \<Longrightarrow> d \<noteq> d' \<Longrightarrow> about d xs = []"
  by (auto simp: about_def filter_empty_conv)

lemma about_all_empty:
  assumes "\<And>d. about d tr = []"
  shows "tr = []"
proof (cases tr)
  case Nil
  then show ?thesis .
next
  case (Cons x xs)
  then have "about (op_id (fst x)) tr \<noteq> []"
    by (simp add: about_def)
  with assms show ?thesis by simp
qed

section \<open>Lemmas on the loops\<close>

lemma fold_about:
  assumes step: "\<forall>d a s. \<exists>ys. attempted (f (d, a) s) = attempted s @ ys \<and> P d a ys"
    and ids: "\<forall>d a ys. P d a ys \<longrightarrow> (\<forall>x\<in>set ys. op_id (fst x) = d)"
    and dist: "distinct (map fst es)"
  shows "\<exists>xs. about d (attempted (fold f es s)) = about d (attempted s) @ xs
            \<and> (case map_of es d of None \<Rightarrow> xs = [] | Some a \<Rightarrow> P d a xs)"
  using dist
proof (induction es arbitrary: s)
  case Nil
  show ?case by simp
next
  case (Cons e es)
  obtain d' a' where e: "e = (d', a')" by (cases e)
  let ?s = "f (d', a') s"
  from step obtain ys where
    ys: "attempted ?s = attempted s @ ys" "P d' a' ys" by blast
  from Cons.prems e have dist': "distinct (map fst es)" and notin: "d' \<notin> fst ` set es"
    by auto
  from Cons.IH[OF dist', of ?s] obtain xs where
    xs: "about d (attempted (fold f es ?s)) = about d (attempted ?s) @ xs"
      "case map_of es d of None \<Rightarrow> xs = [] | Some a \<Rightarrow> P d a xs" by blast
  show ?case
  proof (cases "d = d'")
    case True
    with notin have "map_of es d = None"
      by (simp add: map_of_eq_None_iff)
    with xs(2) have "xs = []" by simp
    moreover have "about d ys = ys"
      using ids ys(2) True by (simp add: about_same)
    ultimately have "about d (attempted (fold f (e # es) s)) = about d (attempted s) @ ys"
      using xs(1) ys(1) e by (simp add: about_append)
    moreover have "case map_of (e # es) d of None \<Rightarrow> ys = [] | Some a \<Rightarrow> P d a ys"
      using ys(2) e True by simp
    ultimately show ?thesis by blast
  next
    case False
    have "about d ys = []"
      using ids ys(2) False by (intro about_other[of ys d']) auto
    then have "about d (attempted (fold f (e # es) s)) = about d (attempted s) @ xs"
      using xs(1) ys(1) e by (simp add: about_append)
    moreover have "case map_of (e # es) d of None \<Rightarrow> xs = [] | Some a \<Rightarrow> P d a xs"
      using xs(2) e False by simp
    ultimately show ?thesis by blast
  qed
qed

lemma fold_extends:
  assumes step: "\<And>e s. \<exists>ys. attempted (f e s) = attempted s @ ys"
  shows "\<exists>xs. attempted (fold f es s) = attempted s @ xs"
proof (induction es arbitrary: s)
  case Nil
  show ?case by simp
next
  case (Cons e es)
  from step[of e s] obtain ys where "attempted (f e s) = attempted s @ ys" by blast
  moreover from Cons.IH[of "f e s"] obtain xs where
    "attempted (fold f es (f e s)) = attempted (f e s) @ xs" by blast
  ultimately show ?case by simp
qed

lemma fold_invariant:
  assumes step: "\<And>e s. I s \<Longrightarrow> I (f e s)" and "I s"
  shows "I (fold f es s)"
  using \<open>I s\<close> by (induction es arbitrary: s) (simp_all add: step)

lemma update_entry_extends:
  "\<exists>ys. attempted (update_entry sh port old e s) = attempted s @ ys"
  using update_entry_steps[of sh port old "fst e" "snd e" s] by auto

lemma remove_turn_extends:
  "\<exists>ys. attempted (remove_turn sh port new e s) = attempted s @ ys"
  using remove_turn_steps[of sh port new "fst e" "snd e" s] by auto

lemma update_entry_recorded:
  "\<not> shadowed old \<Longrightarrow> recorded s \<Longrightarrow> recorded (update_entry sh port old e s)"
  using update_entry_steps[of sh port old "fst e" "snd e" s] by (auto simp: recorded_def)

lemma remove_turn_recorded: "recorded s \<Longrightarrow> recorded (remove_turn sh port new e s)"
  using remove_turn_steps[of sh port new "fst e" "snd e" s] by (auto simp: recorded_def)

lemma logged_step:
  assumes "logged s" and a: "attempted s' = attempted s @ xs"
    and n: "\<forall>x\<in>set xs. \<not> snd x \<longrightarrow> op_id (fst x) \<in> failure_id ` set (failures s')"
    and sub: "set (failures s) \<subseteq> set (failures s')"
  shows "logged s'"
  unfolding logged_def
proof (intro ballI impI)
  fix x
  assume x: "x \<in> set (attempted s')" and f: "\<not> snd x"
  from x a have "x \<in> set (attempted s) \<or> x \<in> set xs" by simp
  then show "op_id (fst x) \<in> failure_id ` set (failures s')"
  proof
    assume "x \<in> set (attempted s)"
    with \<open>logged s\<close> f have "op_id (fst x) \<in> failure_id ` set (failures s)"
      by (simp add: logged_def)
    with sub show ?thesis by blast
  next
    assume "x \<in> set xs"
    with n f show ?thesis by blast
  qed
qed

lemma update_entry_logged: "logged s \<Longrightarrow> logged (update_entry sh port old e s)"
  using update_entry_steps[of sh port old "fst e" "snd e" s]
  by (auto intro: logged_step)

lemma remove_turn_logged: "logged s \<Longrightarrow> logged (remove_turn sh port new e s)"
  using remove_turn_steps[of sh port new "fst e" "snd e" s]
  by (auto intro: logged_step)

lemma update_entry_all_ok:
  assumes "\<forall>c w. fst (sh c w)" and "\<forall>x\<in>set (attempted s). snd x"
  shows "\<forall>x\<in>set (attempted (update_entry sh port old e s)). snd x"
proof -
  from update_entry_steps[of sh port old "fst e" "snd e" s] assms(1)
  obtain xs where "attempted (update_entry sh port old e s) = attempted s @ xs"
    and "\<forall>x\<in>set xs. snd x"
    by auto
  with assms(2) show ?thesis by fastforce
qed

lemma remove_turn_all_ok:
  assumes "\<forall>c w. fst (sh c w)" and "\<forall>x\<in>set (attempted s). snd x"
  shows "\<forall>x\<in>set (attempted (remove_turn sh port new e s)). snd x"
proof -
  from remove_turn_steps[of sh port new "fst e" "snd e" s] assms(1)
  obtain xs where "attempted (remove_turn sh port new e s) = attempted s @ xs"
    and "\<forall>x\<in>set xs. snd x"
    by auto
  with assms(2) show ?thesis by fastforce
qed

section \<open>Lemmas on the pass\<close>

lemma serverMode_fetched:
  assumes "getAllGists gh = Inr (Some g)" and "getGistContent g = Inr newData"
  shows "trace (serverMode sh port gh stateFile w) =
           (if shadowed newData \<and> load_state stateFile \<noteq> []
            then loops sh port (load_state stateFile) newData w
            else (loops sh port (load_state stateFile) newData w)
              \<lparr>fw := snd (sh Ufw_status_numbered
                 (fw (loops sh port (load_state stateFile) newData w)))\<rparr>)"
    and "state_file (serverMode sh port gh stateFile w) =
           (if shadowed newData \<and> load_state stateFile \<noteq> [] then stateFile
            else Some (Object newData))"
    and "outcome (serverMode sh port gh stateFile w) =
           (if shadowed newData \<and> load_state stateFile \<noteq> [] then Aborted TypeError
            else if fst (sh Ufw_status_numbered
                   (fw (loops sh port (load_state stateFile) newData w)))
            then Completed else Aborted Failed_to_list_UFW_rules)"
  using assms
  by (auto simp: serverMode_def loops_def Let_def listRules_def remove_loop_eq
      split: prod.splits bool.splits)

lemma serverMode_attempted:
  assumes "getAllGists gh = Inr (Some g)" and "getGistContent g = Inr newData"
  shows "attempted (trace (serverMode sh port gh stateFile w)) =
           attempted (loops sh port (load_state stateFile) newData w)"
    and "failures (trace (serverMode sh port gh stateFile w)) =
           failures (loops sh port (load_state stateFile) newData w)"
  by (simp_all add: serverMode_fetched(1)[OF assms])

lemma follows_all_ok:
  assumes "follows p xs" and "\<forall>x\<in>set xs. snd x"
  shows "xs = map (\<lambda>c. (c, True)) p"
proof -
  from assms have "map fst xs = p"
    by (auto simp: follows_def)
  moreover from assms(2) have "xs = map (\<lambda>c. (c, True)) (map fst xs)"
    by (induction xs) auto
  ultimately show ?thesis by simp
qed

lemma planned_pair:
  "planned old new d = [Remove d b, Add d a] \<Longrightarrow>
   map_of old d = Some b \<and> map_of new d = Some a \<and> b \<noteq> a"
  by (auto simp: planned_def split: option.splits if_splits)

lemma loops_shape:
  assumes dn: "distinct (map fst new)" and d_old: "distinct (map fst old)"
  shows "\<exists>us rs. about d (attempted (loops sh port old new w)) = us @ rs
           \<and> (case map_of new d of None \<Rightarrow> us = [] | Some a \<Rightarrow> entry_steps old d a us)
           \<and> (case map_of old d of None \<Rightarrow> rs = [] | Some b \<Rightarrow> removal_steps new d b rs)"
proof -
  let ?s0 = "\<lparr>fw = w, attempted = [], failures = []\<rparr>"
  let ?s1 = "fold (update_entry sh port old) new ?s0"
  have step1: "\<forall>d a s. \<exists>ys. attempted (update_entry sh port old (d, a) s) = attempted s @ ys
                          \<and> entry_steps old d a ys"
    using update_entry_steps[of sh port old] by blast
  have step2: "\<forall>d a s. \<exists>ys. attempted (remove_turn sh port new (d, a) s) = attempted s @ ys
                          \<and> removal_steps new d a ys"
    using remove_turn_steps[of sh port new] by blast
  have ids1: "\<forall>d a ys. entry_steps old d a ys \<longrightarrow> (\<forall>x\<in>set ys. op_id (fst x) = d)"
    using entry_steps_ids by blast
  have ids2: "\<forall>d a ys. removal_steps new d a ys \<longrightarrow> (\<forall>x\<in>set ys. op_id (fst x) = d)"
    using removal_steps_ids by blast
  from fold_about[where f = "update_entry sh port old" and P = "entry_steps old"
      and es = new and d = d and s = ?s0, OF step1 ids1 dn]
  obtain us where us: "about d (attempted ?s1) = us"
    "case map_of new d of None \<Rightarrow> us = [] | Some a \<Rightarrow> entry_steps old d a us"
    by (auto simp: about_def)
  from fold_about[where f = "remove_turn sh port new" and P = "removal_steps new"
      and es = old and d = d and s = ?s1, OF step2 ids2 d_old]
  obtain rs where rs: "about d (attempted (loops sh port old new w)) = us @ rs"
    "case map_of old d of None \<Rightarrow> rs = [] | Some b \<Rightarrow> removal_steps new d b rs"
    unfolding loops_def us(1) by blast
  from us(2) rs show ?thesis by blast
qed

lemma loops_follows:
  assumes "distinct (map fst new)" and "distinct (map fst old)"
    and "\<not> shadowed old" and "\<not> shadowed new"
  shows "follows (planned old new d) (about d (attempted (loops sh port old new w)))"
proof -
  from loops_shape[OF assms(1,2), of d sh port w] obtain us rs where
    "about d (attempted (loops sh port old new w)) = us @ rs"
    "case map_of new d of None \<Rightarrow> us = [] | Some a \<Rightarrow> entry_steps old d a us"
    "case map_of old d of None \<Rightarrow> rs = [] | Some b \<Rightarrow> removal_steps new d b rs"
    by blast
  with assms(3,4) show ?thesis
    by (auto simp: planned_def follows_def entry_steps_def removal_steps_def
        split: option.splits if_splits)
qed

lemma loops_cases:
  assumes "distinct (map fst new)" and "distinct (map fst old)"
  shows "about d (attempted (loops sh port old new w)) = []
       \<or> (\<exists>a ok. about d (attempted (loops sh port old new w)) = [(Add d a, ok)])
       \<or> (\<exists>a ok. about d (attempted (loops sh port old new w)) = [(Remove d a, ok)])
       \<or> (\<exists>b a ok. about d (attempted (loops sh port old new w)) =
            [(Remove d b, True), (Add d a, ok)])"
proof -
  from loops_shape[OF assms, of d sh port w] obtain us rs where
    "about d (attempted (loops sh port old new w)) = us @ rs"
    "case map_of new d of None \<Rightarrow> us = [] | Some a \<Rightarrow> entry_steps old d a us"
    "case map_of old d of None \<Rightarrow> rs = [] | Some b \<Rightarrow> removal_steps new d b rs"
    by blast
  then show ?thesis
    by (auto simp: entry_steps_def removal_steps_def split: option.splits if_splits)
qed

lemma loops_unchanged:
  assumes "distinct (map fst doc)"
  shows "attempted (loops sh port doc doc w) = []"
proof (rule about_all_empty)
  fix d
  from loops_shape[OF assms assms, of d sh port w] obtain us rs where
    "about d (attempted (loops sh port doc doc w)) = us @ rs"
    "case map_of doc d of None \<Rightarrow> us = [] | Some a \<Rightarrow> entry_steps doc d a us"
    "case map_of doc d of None \<Rightarrow> rs = [] | Some b \<Rightarrow> removal_steps doc d b rs"
    by blast
  then show "about d (attempted (loops sh port doc doc w)) = []"
    by (auto simp: entry_steps_def removal_steps_def split: option.splits if_splits)
qed

lemma loops_recorded: "\<not> shadowed old \<Longrightarrow> recorded (loops sh port old new w)"
  unfolding loops_def
  by (intro fold_invariant[where I = recorded] update_entry_recorded remove_turn_recorded)
     (simp_all add: recorded_def)

lemma loops_logged: "logged (loops sh port old new w)"
  unfolding loops_def
  by (intro fold_invariant[where I = logged] update_entry_logged remove_turn_logged)
     (simp_all add: logged_def)

lemma loops_all_ok:
  assumes "\<forall>c w. fst (sh c w)"
  shows "\<forall>x\<in>set (attempted (loops sh port old new w)). snd x"
  unfolding loops_def
  by (intro fold_invariant[where I = "\<lambda>s. \<forall>x\<in>set (attempted s). snd x"]
      update_entry_all_ok[OF assms] remove_turn_all_ok[OF assms]) simp_all

lemma loops_adjacent:
  assumes "(d, a) \<in> set new"
  shows "\<exists>pre ys post. attempted (loops sh port old new w) = pre @ ys @ post
           \<and> entry_steps old d a ys"
proof -
  let ?s0 = "\<lparr>fw = w, attempted = [], failures = []\<rparr>"
  from assms obtain es1 es2 where new: "new = es1 @ (d, a) # es2"
    by (auto simp: in_set_conv_decomp)
  let ?sA = "fold (update_entry sh port old) es1 ?s0"
  let ?sB = "update_entry sh port old (d, a) ?sA"
  let ?s1 = "fold (update_entry sh port old) es2 ?sB"
  from update_entry_steps[of sh port old d a ?sA] obtain ys where
    ys: "attempted ?sB = attempted ?sA @ ys" "entry_steps old d a ys" by blast
  from fold_extends[where f = "update_entry sh port old" and es = es2 and s = ?sB,
      OF update_entry_extends]
  obtain zs where zs: "attempted ?s1 = attempted ?sB @ zs" by blast
  from fold_extends[where f = "remove_turn sh port new" and es = old and s = ?s1,
      OF remove_turn_extends]
  obtain rs where rs: "attempted (fold (remove_turn sh port new) old ?s1) = attempted ?s1 @ rs"
    by blast
  have "loops sh port old new w = fold (remove_turn sh port new) old ?s1"
    by (simp add: loops_def new)
  then have "attempted (loops sh port old new w) = attempted ?sA @ ys @ (zs @ rs)"
    using ys(1) zs rs by simp
  with ys(2) show ?thesis by blast
qed

lemma fold_update_empty:
  "map fst (attempted (fold (update_entry sh port []) es s)) =
     map fst (attempted s) @ map (\<lambda>(d, ip). Add d ip) es"
  by (induction es arbitrary: s)
     (auto simp: update_entry_def hasOwnProperty_def shadowed_def issue_eq)

lemma loops_empty_checkpoint:
  "map fst (attempted (loops sh port [] new w)) = map (\<lambda>(d, ip). Add d ip) new"
  by (simp add: loops_def fold_update_empty)

lemma load_state_nonempty:
  "load_state stateFile = doc \<Longrightarrow> doc \<noteq> [] \<Longrightarrow> stateFile = Some (Object doc)"
  by (auto simp: load_state_def JSON_parse_def split: option.splits json_text.splits)

lemma shadowed_nonempty: "shadowed doc \<Longrightarrow> doc \<noteq> []"
  by (auto simp: shadowed_def)

lemma map_of_update_own:
  "map_of obj k \<noteq> None \<Longrightarrow> map_of (update_own obj k v) = (map_of obj)(k \<mapsto> v)"
  by (induction obj) (auto simp: fun_eq_iff)

lemma map_of_insert_between:
  "map_of obj k = None \<Longrightarrow>
   map_of (takeWhile P obj @ (k, v) # dropWhile P obj) = (map_of obj)(k \<mapsto> v)"
  by (induction obj) (auto simp: fun_upd_twist split: if_splits)

lemma map_of_create_own:
  assumes "map_of obj k = None"
  shows "map_of (create_own obj k v) = (map_of obj)(k \<mapsto> v)"
proof (cases "array_index k")
  case None
  with assms show ?thesis
    by (auto simp: create_own_def map_add_def fun_eq_iff split: option.splits)
next
  case (Some n)
  then have "create_own obj k v = takeWhile (precedes n) obj @ (k, v) # dropWhile (precedes n) obj"
    by (simp add: create_own_def)
  then show ?thesis
    by (simp only: map_of_insert_between[OF assms])
qed

lemma map_of_assign:
  "k \<noteq> ''__proto__'' \<or> map_of obj k \<noteq> None \<Longrightarrow>
   map_of (assign obj k v) = (map_of obj)(k \<mapsto> v)"
  by (auto simp: assign_def map_of_update_own map_of_create_own)

lemma connectorMode_assigns_identifier:
  assumes "Update_gist doc \<in> set (written (connectorMode domain n))"
  shows "\<exists>ip g current. ipify n = Some ip \<and> github n = Config_gist g
           \<and> getGistContent g = Inr current \<and> doc = assign current domain ip"
  using assms
  by (auto simp: connectorMode_def getDeviceIp_def getAllGists_def Let_def
      split: option.splits sum.splits gists.splits)

lemma removeRule_deletes_allow_rule:
  "(Allow, ip, port) \<notin> set (snd (removeRule ufw port ip t))"
  by (simp add: removeRule_def)

lemma removeRule_undoes_addRule:
  "(Allow, ip, port) \<notin> set t \<Longrightarrow>
   snd (removeRule ufw port ip (snd (addRule ufw port ip t))) = t"
  by (simp add: removeRule_def addRule_def)

lemma removeUFWRule_keeps_allow_rules:
  "(Allow, ip', p) \<in> set t \<Longrightarrow> (Allow, ip', p) \<in> set (snd (removeUFWRule ufw ip cfg t))"
  by (simp add: removeUFWRule_def)

lemma ufw_succeeds: "\<forall>c w. fst (ufw c w)"
proof (intro allI)
  fix c w
  show "fst (ufw c w)" by (cases c) simp_all
qed

section \<open>The server pass: fetching\<close>

text \<open>
  C1, as amended. When the store is unreachable (listing the gists throws, or fetching
  the raw url of the configuration gist throws) the pass aborts with the fetch error,
  the local state file is left as it was and no firewall command is run. A body that
  is not valid JSON is not a fetch failure: the pass runs as it does on the empty
  document.
\<close>

theorem unreachable_store_aborts:
  assumes "gh = Gists_unreachable \<or> gh = Config_gist Raw_unreachable"
  shows "(outcome (serverMode sh port gh stateFile w) = Aborted Failed_to_fetch_gists
          \<or> outcome (serverMode sh port gh stateFile w) = Aborted Failed_to_fetch_gist_content)
       \<and> state_file (serverMode sh port gh stateFile w) = stateFile
       \<and> trace (serverMode sh port gh stateFile w) = \<lparr>fw = w, attempted = [], failures = []\<rparr>
       \<and> serverMode sh port (Config_gist (Raw_text Malformed)) stateFile w =
           serverMode sh port (Config_gist (Raw_text (Object []))) stateFile w"
  using assms
  by (auto simp: serverMode_def getAllGists_def getGistContent_def JSON_parse_def)

theorem unreachable_store_aborts_witness:
  "serverMode ufw 22 (Config_gist Raw_unreachable) (Some (Object example_checkpoint))
     [(Allow, ''1.1.1.1'', 22), (Allow, ''2.2.2.2'', 22)] =
   \<lparr>outcome = Aborted Failed_to_fetch_gist_content,
    state_file = Some (Object example_checkpoint),
    trace = \<lparr>fw = [(Allow, ''1.1.1.1'', 22), (Allow, ''2.2.2.2'', 22)], attempted = [],
             failures = []\<rparr>\<rparr>"
proof -
  have h: "Config_gist Raw_unreachable = Gists_unreachable
         \<or> Config_gist Raw_unreachable = Config_gist Raw_unreachable"
    by simp
  show ?thesis
    using unreachable_store_aborts[OF h, where sh = ufw and port = 22
        and stateFile = "Some (Object example_checkpoint)"
        and w = "[(Allow, ''1.1.1.1'', 22), (Allow, ''2.2.2.2'', 22)]"]
    by (simp add: pass_defs)
qed

text \<open>
  C1 as stated fails on malformed data: with a gist body that does not parse and the
  checkpoint \<open>{a: 1.1.1.1}\<close>, the pass completes, removes the rule of \<open>a\<close> and
  overwrites the checkpoint with the empty document.
\<close>

theorem malformed_gist_counterexample:
  "serverMode ufw 22 (Config_gist (Raw_text Malformed)) (Some (Object [(''a'', ''1.1.1.1'')]))
     [(Allow, ''1.1.1.1'', 22)] =
   \<lparr>outcome = Completed, state_file = Some (Object []),
    trace = \<lparr>fw = [], attempted = [(Remove ''a'' ''1.1.1.1'', True)], failures = []\<rparr>\<rparr>"
  by (simp add: pass_defs)

section \<open>The server pass: the plan\<close>

text \<open>
  C2 as stated fails when a firewall command fails: on the example of the
  specification, with a firewall that refuses to delete the rule of \<open>2.2.2.2\<close>, the
  pass executes the remove of \<open>b\<close> and the add of \<open>c\<close>; the add of \<open>b\<close>, which the plan
  holds, is not executed.
\<close>

theorem plan_counterexample:
  "serverMode (failing [Ufw_delete Allow ''2.2.2.2'' 22]) 22 example_store
     (Some (Object example_checkpoint)) example_table =
   \<lparr>outcome = Completed, state_file = Some (Object example_desired),
    trace = \<lparr>fw = [(Allow, ''1.1.1.1'', 22), (Allow, ''2.2.2.2'', 22), (Allow, ''4.4.4.4'', 22)],
             attempted = [(Remove ''b'' ''2.2.2.2'', False), (Add ''c'' ''4.4.4.4'', True)],
             failures = [Failed_to_update_rules_for ''b'' Failed_to_remove_UFW_rule]\<rparr>\<rparr>"
  by (simp add: pass_defs)

text \<open>
  C2, as amended. For documents without an identifier named \<open>hasOwnProperty\<close>, the
  operations the pass issues for an identifier are those of its plan (an add for a new
  identifier, the remove of the old address then the add of the new one for a changed
  identifier, a remove for a deleted identifier, nothing for an unchanged one), except
  that the add of a changed identifier is left out when its remove failed. When every
  firewall command succeeds they are exactly the plan. For a changed identifier the
  remove of the old address comes first and, when it succeeds, the add of the new
  address is the next operation of the pass.
\<close>

theorem server_plan:
  assumes "getAllGists gh = Inr (Some g)" and "getGistContent g = Inr newData"
    and "distinct (map fst newData)" and "distinct (map fst (load_state stateFile))"
    and "\<not> shadowed newData" and "\<not> shadowed (load_state stateFile)"
  shows "follows (planned (load_state stateFile) newData d)
           (about d (attempted (trace (serverMode sh port gh stateFile w))))
       \<and> ((\<forall>c w. fst (sh c w)) \<longrightarrow>
            about d (attempted (trace (serverMode sh port gh stateFile w))) =
              map (\<lambda>c. (c, True)) (planned (load_state stateFile) newData d))
       \<and> (planned (load_state stateFile) newData d = [Remove d b, Add d a] \<longrightarrow>
            (\<exists>pre post.
               attempted (trace (serverMode sh port gh stateFile w)) =
                 pre @ [(Remove d b, False)] @ post
             \<or> (\<exists>ok. attempted (trace (serverMode sh port gh stateFile w)) =
                   pre @ [(Remove d b, True), (Add d a, ok)] @ post)))"
proof -
  let ?old = "load_state stateFile"
  let ?tr = "attempted (loops sh port ?old newData w)"
  have tr: "attempted (trace (serverMode sh port gh stateFile w)) = ?tr"
    by (rule serverMode_attempted(1)[OF assms(1,2)])
  have plan: "follows (planned ?old newData d) (about d ?tr)"
    by (rule loops_follows[OF assms(3,4,6,5)])
  have exact: "about d ?tr = map (\<lambda>c. (c, True)) (planned ?old newData d)"
    if all: "\<forall>c w. fst (sh c w)"
  proof -
    from loops_all_ok[OF all, of port ?old newData w] have "\<forall>x\<in>set (about d ?tr). snd x"
      by (simp add: about_def)
    with plan show ?thesis
      by (rule follows_all_ok)
  qed
  have next_to: "\<exists>pre post. ?tr = pre @ [(Remove d b, False)] @ post
      \<or> (\<exists>ok. ?tr = pre @ [(Remove d b, True), (Add d a, ok)] @ post)"
    if p: "planned ?old newData d = [Remove d b, Add d a]"
  proof -
    from planned_pair[OF p] have old: "map_of ?old d = Some b"
      and new: "(d, a) \<in> set newData" and neq: "b \<noteq> a"
      by (auto dest: map_of_SomeD)
    from loops_adjacent[OF new, of sh port ?old w] obtain pre ys post where
      ys: "?tr = pre @ ys @ post" "entry_steps ?old d a ys" by blast
    from ys(2) old neq assms(6)
    have "ys = [(Remove d b, False)] \<or> (\<exists>ok. ys = [(Remove d b, True), (Add d a, ok)])"
      by (simp add: entry_steps_def)
    then show ?thesis
    proof (elim disjE exE)
      assume "ys = [(Remove d b, False)]"
      with ys(1) show ?thesis by blast
    next
      fix ok
      assume "ys = [(Remove d b, True), (Add d a, ok)]"
      with ys(1) show ?thesis by blast
    qed
  qed
  show ?thesis
    unfolding tr
  proof (intro conjI impI)
    show "follows (planned ?old newData d) (about d ?tr)"
      by (rule plan)
  next
    assume "\<forall>c w. fst (sh c w)"
    then show "about d ?tr = map (\<lambda>c. (c, True)) (planned ?old newData d)"
      by (rule exact)
  next
    assume "planned ?old newData d = [Remove d b, Add d a]"
    then show "\<exists>pre post. ?tr = pre @ [(Remove d b, False)] @ post
      \<or> (\<exists>ok. ?tr = pre @ [(Remove d b, True), (Add d a, ok)] @ post)"
      by (rule next_to)
  qed
qed

theorem server_plan_witness:
  "about ''b'' (attempted (trace (serverMode ufw 22 example_store
      (Some (Object example_checkpoint)) []))) =
     [(Remove ''b'' ''2.2.2.2'', True), (Add ''b'' ''3.3.3.3'', True)]
   \<and> map fst (attempted (trace (serverMode ufw 22 example_store
        (Some (Object example_checkpoint)) []))) =
       [Remove ''b'' ''2.2.2.2'', Add ''b'' ''3.3.3.3'', Add ''c'' ''4.4.4.4'']"
proof -
  have h1: "getAllGists example_store = Inr (Some (Raw_text (Object example_desired)))"
    by (simp add: pass_defs)
  have h2: "getGistContent (Raw_text (Object example_desired)) = Inr example_desired"
    by (simp add: pass_defs)
  have h3: "distinct (map fst example_desired)"
    by (simp add: pass_defs)
  have h4: "distinct (map fst (load_state (Some (Object example_checkpoint))))"
    by (simp add: pass_defs)
  have h5: "\<not> shadowed example_desired"
    by (simp add: pass_defs)
  have h6: "\<not> shadowed (load_state (Some (Object example_checkpoint)))"
    by (simp add: pass_defs)
  have p: "planned (load_state (Some (Object example_checkpoint))) example_desired ''b'' =
             [Remove ''b'' ''2.2.2.2'', Add ''b'' ''3.3.3.3'']"
    by (simp add: planned_def pass_defs)
  have whole: "map fst (attempted (trace (serverMode ufw 22 example_store
        (Some (Object example_checkpoint)) []))) =
       [Remove ''b'' ''2.2.2.2'', Add ''b'' ''3.3.3.3'', Add ''c'' ''4.4.4.4'']"
    by (simp add: pass_defs)
  from server_plan[OF h1 h2 h3 h4 h5 h6, where d = "''b''" and b = "''2.2.2.2''"
      and a = "''3.3.3.3''" and port = 22 and w = "[]" and sh = ufw] ufw_succeeds
  show ?thesis
    unfolding p using whole by simp
qed

section \<open>The server pass: failing operations\<close>

text \<open>
  C3 fails on the code when an identifier is named \<open>hasOwnProperty\<close>. With the
  checkpoint \<open>{x: 1.1.1.1}\<close>, the fetched document \<open>{hasOwnProperty: 2.2.2.2}\<close> and a
  firewall that refuses the add of \<open>2.2.2.2\<close>, the failed add is logged, then
  \<open>newData.hasOwnProperty('x')\<close> throws outside the inner \<open>try\<close>: the remove for \<open>x\<close> is
  never attempted and the state file keeps the old checkpoint.
\<close>

theorem shadowing_identifier_aborts_pass:
  "serverMode (failing [Ufw_allow ''2.2.2.2'' 22]) 22
     (Config_gist (Raw_text (Object shadowing_desired)))
     (Some (Object plain_checkpoint)) [(Allow, ''1.1.1.1'', 22)] =
   \<lparr>outcome = Aborted TypeError, state_file = Some (Object plain_checkpoint),
    trace = \<lparr>fw = [(Allow, ''1.1.1.1'', 22)],
             attempted = [(Add ''hasOwnProperty'' ''2.2.2.2'', False)],
             failures = [Failed_to_update_rules_for ''hasOwnProperty''
                           Failed_to_add_UFW_rule]\<rparr>\<rparr>"
  by (simp add: pass_defs)

text \<open>
  What holds of the code for documents without such an identifier: whatever the
  firewall commands do, the operations issued for an identifier follow its plan, every
  failed operation has its failure line, and the state file holds the whole fetched
  document after the pass.
\<close>

lemma isolation_without_shadowing:
  assumes "getAllGists gh = Inr (Some g)" and "getGistContent g = Inr newData"
    and "distinct (map fst newData)" and "distinct (map fst (load_state stateFile))"
    and "\<not> shadowed newData" and "\<not> shadowed (load_state stateFile)"
  shows "follows (planned (load_state stateFile) newData d)
           (about d (attempted (trace (serverMode sh port gh stateFile w))))
       \<and> recorded (trace (serverMode sh port gh stateFile w))
       \<and> state_file (serverMode sh port gh stateFile w) = Some (Object newData)"
proof -
  have "follows (planned (load_state stateFile) newData d)
          (about d (attempted (trace (serverMode sh port gh stateFile w))))"
    unfolding serverMode_attempted(1)[OF assms(1,2)]
    by (rule loops_follows[OF assms(3,4,6,5)])
  moreover have "recorded (trace (serverMode sh port gh stateFile w))"
    using loops_recorded[OF assms(6), of sh port newData w]
    by (simp add: recorded_def serverMode_attempted[OF assms(1,2)])
  moreover have "state_file (serverMode sh port gh stateFile w) = Some (Object newData)"
    using assms(5) by (simp add: serverMode_fetched(2)[OF assms(1,2)])
  ultimately show ?thesis by blast
qed

text \<open>
  C4 as stated fails: with the checkpoint \<open>{b: 2.2.2.2}\<close>, the desired document
  \<open>{b: 3.3.3.3}\<close> and a firewall that refuses to delete the rule of \<open>2.2.2.2\<close>, the pass
  issues the remove alone; the add of \<open>3.3.3.3\<close> is not attempted.
\<close>

theorem failed_remove_counterexample:
  "serverMode (failing [Ufw_delete Allow ''2.2.2.2'' 22]) 22
     (Config_gist (Raw_text (Object [(''b'', ''3.3.3.3'')])))
     (Some (Object [(''b'', ''2.2.2.2'')])) [(Allow, ''2.2.2.2'', 22)] =
   \<lparr>outcome = Completed, state_file = Some (Object [(''b'', ''3.3.3.3'')]),
    trace = \<lparr>fw = [(Allow, ''2.2.2.2'', 22)],
             attempted = [(Remove ''b'' ''2.2.2.2'', False)],
             failures = [Failed_to_update_rules_for ''b'' Failed_to_remove_UFW_rule]\<rparr>\<rparr>"
  by (simp add: pass_defs)

text \<open>
  C4, as amended. The remove and the add of a changed identifier share one \<open>try\<close>
  block: when the remove of an identifier fails, no add is attempted for that identifier
  in the pass, and the failure is recorded for it.
\<close>

theorem failed_remove_skips_add:
  assumes "getAllGists gh = Inr (Some g)" and "getGistContent g = Inr newData"
    and "distinct (map fst newData)" and "distinct (map fst (load_state stateFile))"
    and "(Remove d b, False) \<in> set (attempted (trace (serverMode sh port gh stateFile w)))"
  shows "(Add d a, ok) \<notin> set (attempted (trace (serverMode sh port gh stateFile w)))
       \<and> d \<in> failure_id ` set (failures (trace (serverMode sh port gh stateFile w)))"
proof -
  let ?tr = "attempted (loops sh port (load_state stateFile) newData w)"
  let ?fs = "failures (loops sh port (load_state stateFile) newData w)"
  have tr: "attempted (trace (serverMode sh port gh stateFile w)) = ?tr"
    and fs: "failures (trace (serverMode sh port gh stateFile w)) = ?fs"
    by (rule serverMode_attempted[OF assms(1,2)])+
  from assms(5) have failed: "(Remove d b, False) \<in> set ?tr"
    by (simp add: tr)
  then have "(Remove d b, False) \<in> set (about d ?tr)"
    by (simp add: about_def)
  with loops_cases[OF assms(3,4), of d sh port w]
  have "(Add d a, ok) \<notin> set (about d ?tr)"
    by auto
  then have "(Add d a, ok) \<notin> set ?tr"
    by (simp add: about_def)
  moreover from failed loops_logged[of sh port "load_state stateFile" newData w]
  have "d \<in> failure_id ` set ?fs"
    by (force simp: logged_def)
  ultimately show ?thesis
    by (simp add: tr fs)
qed

theorem failed_remove_skips_add_witness:
  "(Remove ''b'' ''2.2.2.2'', False) \<in> set (attempted (trace
      (serverMode (failing [Ufw_delete Allow ''2.2.2.2'' 22]) 22 example_store
         (Some (Object example_checkpoint)) example_table)))
   \<and> (Add ''b'' ''3.3.3.3'', True) \<notin> set (attempted (trace
      (serverMode (failing [Ufw_delete Allow ''2.2.2.2'' 22]) 22 example_store
         (Some (Object example_checkpoint)) example_table)))
   \<and> ''b'' \<in> failure_id ` set (failures (trace
      (serverMode (failing [Ufw_delete Allow ''2.2.2.2'' 22]) 22 example_store
         (Some (Object example_checkpoint)) example_table)))"
proof -
  have h1: "getAllGists example_store = Inr (Some (Raw_text (Object example_desired)))"
    by (simp add: pass_defs)
  have h2: "getGistContent (Raw_text (Object example_desired)) = Inr example_desired"
    by (simp add: pass_defs)
  have h3: "distinct (map fst example_desired)"
    by (simp add: pass_defs)
  have h4: "distinct (map fst (load_state (Some (Object example_checkpoint))))"
    by (simp add: pass_defs)
  have h5: "(Remove ''b'' ''2.2.2.2'', False) \<in> set (attempted (trace
      (serverMode (failing [Ufw_delete Allow ''2.2.2.2'' 22]) 22 example_store
         (Some (Object example_checkpoint)) example_table)))"
    by (simp add: pass_defs)
  from failed_remove_skips_add[OF h1 h2 h3 h4 h5, where a = "''3.3.3.3''" and ok = True] h5
  show ?thesis by blast
qed

section \<open>The server pass: an unchanged document\<close>

text \<open>
  C5. When the checkpoint read from the state file equals the fetched document, the
  pass issues no operation, whatever the firewall would do, and the state file holds
  that document after the pass. It logs no failure either, unless an identifier is
  named \<open>hasOwnProperty\<close>.
\<close>

theorem unchanged_document_no_operation:
  assumes "getAllGists gh = Inr (Some g)" and "getGistContent g = Inr newData"
    and "load_state stateFile = newData" and "distinct (map fst newData)"
  shows "attempted (trace (serverMode sh port gh stateFile w)) = []
       \<and> (\<not> shadowed newData \<longrightarrow> failures (trace (serverMode sh port gh stateFile w)) = [])
       \<and> state_file (serverMode sh port gh stateFile w) = Some (Object newData)"
proof -
  have empty: "attempted (loops sh port newData newData w) = []"
    by (rule loops_unchanged[OF assms(4)])
  have "failures (loops sh port newData newData w) = []" if "\<not> shadowed newData"
    using loops_recorded[OF that, of sh port newData w] empty
    by (simp add: recorded_def)
  moreover have "state_file (serverMode sh port gh stateFile w) = Some (Object newData)"
    using load_state_nonempty[OF assms(3)]
    by (auto simp: serverMode_fetched(2)[OF assms(1,2)] assms(3))
  ultimately show ?thesis
    using empty by (simp add: serverMode_attempted[OF assms(1,2)] assms(3))
qed

theorem unchanged_document_no_operation_witness:
  "serverMode (failing [Ufw_allow ''1.1.1.1'' 22]) 22 example_store
     (Some (Object example_desired)) example_table =
   \<lparr>outcome = Completed, state_file = Some (Object example_desired),
    trace = \<lparr>fw = example_table, attempted = [], failures = []\<rparr>\<rparr>"
proof -
  have h1: "getAllGists example_store = Inr (Some (Raw_text (Object example_desired)))"
    by (simp add: pass_defs)
  have h2: "getGistContent (Raw_text (Object example_desired)) = Inr example_desired"
    by (simp add: pass_defs)
  have h3: "load_state (Some (Object example_desired)) = example_desired"
    by (simp add: pass_defs)
  have h4: "distinct (map fst example_desired)"
    by (simp add: pass_defs)
  from unchanged_document_no_operation[OF h1 h2 h3 h4, where port = 22 and w = example_table
      and sh = "failing [Ufw_allow ''1.1.1.1'' 22]"]
  show ?thesis
    by (simp add: pass_defs)
qed

section \<open>The server pass: the state file at the start\<close>

text \<open>
  C9. Without a state file the pass runs as it does on a state file holding the empty
  document: it issues one add for every entry of the fetched document, in order, and
  nothing else, writes the fetched document to the state file, and can only still
  report the error of the closing rule listing.
\<close>

theorem missing_checkpoint_is_empty:
  assumes "getAllGists gh = Inr (Some g)" and "getGistContent g = Inr newData"
  shows "serverMode sh port gh None w = serverMode sh port gh (Some (Object [])) w
       \<and> map fst (attempted (trace (serverMode sh port gh None w))) =
           map (\<lambda>(d, ip). Add d ip) newData
       \<and> state_file (serverMode sh port gh None w) = Some (Object newData)
       \<and> (outcome (serverMode sh port gh None w) = Completed
          \<or> outcome (serverMode sh port gh None w) = Aborted Failed_to_list_UFW_rules)"
proof -
  have "serverMode sh port gh None w = serverMode sh port gh (Some (Object [])) w"
    using assms by (simp add: serverMode_def load_state_def JSON_parse_def)
  moreover have "map fst (attempted (trace (serverMode sh port gh None w))) =
      map (\<lambda>(d, ip). Add d ip) newData"
    by (simp add: serverMode_attempted(1)[OF assms] load_state_def loops_empty_checkpoint)
  moreover have "state_file (serverMode sh port gh None w) = Some (Object newData)"
    by (simp add: serverMode_fetched(2)[OF assms] load_state_def JSON_parse_def)
  moreover have "outcome (serverMode sh port gh None w) = Completed
      \<or> outcome (serverMode sh port gh None w) = Aborted Failed_to_list_UFW_rules"
    by (simp add: serverMode_fetched(3)[OF assms] load_state_def JSON_parse_def)
  ultimately show ?thesis by blast
qed

theorem missing_checkpoint_is_empty_witness:
  "serverMode ufw 22 example_store None [] =
   \<lparr>outcome = Completed, state_file = Some (Object example_desired),
    trace = \<lparr>fw = [(Allow, ''1.1.1.1'', 22), (Allow, ''3.3.3.3'', 22), (Allow, ''4.4.4.4'', 22)],
             attempted = [(Add ''a'' ''1.1.1.1'', True), (Add ''b'' ''3.3.3.3'', True),
                          (Add ''c'' ''4.4.4.4'', True)],
             failures = []\<rparr>\<rparr>"
proof -
  have h1: "getAllGists example_store = Inr (Some (Raw_text (Object example_desired)))"
    by (simp add: pass_defs)
  have h2: "getGistContent (Raw_text (Object example_desired)) = Inr example_desired"
    by (simp add: pass_defs)
  from missing_checkpoint_is_empty[OF h1 h2, where sh = ufw and port = 22 and w = "[]"]
  show ?thesis
    by (simp add: pass_defs)
qed

text \<open>
  C10. With a state file that does not parse, the pass runs on the empty checkpoint:
  it issues one add for every entry of the fetched document and no remove, and it
  overwrites the state file with the fetched document.
\<close>

theorem unparseable_checkpoint_is_empty:
  assumes "getAllGists gh = Inr (Some g)" and "getGistContent g = Inr newData"
  shows "map fst (attempted (trace (serverMode sh port gh (Some Malformed) w))) =
           map (\<lambda>(d, ip). Add d ip) newData
       \<and> (\<forall>d a ok. (Remove d a, ok) \<notin>
             set (attempted (trace (serverMode sh port gh (Some Malformed) w))))
       \<and> state_file (serverMode sh port gh (Some Malformed) w) = Some (Object newData)
       \<and> (outcome (serverMode sh port gh (Some Malformed) w) = Completed
          \<or> outcome (serverMode sh port gh (Some Malformed) w) =
               Aborted Failed_to_list_UFW_rules)"
proof -
  let ?r = "serverMode sh port gh (Some Malformed) w"
  have adds: "map fst (attempted (trace ?r)) = map (\<lambda>(d, ip). Add d ip) newData"
    by (simp add: serverMode_attempted(1)[OF assms] load_state_def JSON_parse_def
        loops_empty_checkpoint)
  have "(Remove d a, ok) \<notin> set (attempted (trace ?r))" for d a ok
  proof
    assume "(Remove d a, ok) \<in> set (attempted (trace ?r))"
    then have "Remove d a \<in> set (map fst (attempted (trace ?r)))"
      by force
    then show False
      unfolding adds by auto
  qed
  moreover have "state_file ?r = Some (Object newData)"
    by (simp add: serverMode_fetched(2)[OF assms] load_state_def JSON_parse_def)
  moreover have "outcome ?r = Completed \<or> outcome ?r = Aborted Failed_to_list_UFW_rules"
    by (simp add: serverMode_fetched(3)[OF assms] load_state_def JSON_parse_def)
  ultimately show ?thesis
    using adds by blast
qed

theorem unparseable_checkpoint_is_empty_witness:
  "serverMode ufw 22 example_store (Some Malformed) example_table =
   \<lparr>outcome = Completed, state_file = Some (Object example_desired),
    trace = \<lparr>fw = [(Allow, ''1.1.1.1'', 22), (Allow, ''2.2.2.2'', 22),
                   (Allow, ''3.3.3.3'', 22), (Allow, ''4.4.4.4'', 22)],
             attempted = [(Add ''a'' ''1.1.1.1'', True), (Add ''b'' ''3.3.3.3'', True),
                          (Add ''c'' ''4.4.4.4'', True)],
             failures = []\<rparr>\<rparr>"
proof -
  have h1: "getAllGists example_store = Inr (Some (Raw_text (Object example_desired)))"
    by (simp add: pass_defs)
  have h2: "getGistContent (Raw_text (Object example_desired)) = Inr example_desired"
    by (simp add: pass_defs)
  from unparseable_checkpoint_is_empty[OF h1 h2, where sh = ufw and port = 22
      and w = example_table]
  show ?thesis
    by (simp add: pass_defs)
qed

section \<open>The connector passes\<close>

text \<open>
  C6 as stated fails on the one-shot connector of ip.js, which keeps no last address:
  with the store already holding the observed address under the identifier, the pass
  still sends the whole document to the store.
\<close>

theorem connectorMode_counterexample:
  "connectorMode ''laptop''
     \<lparr>ipify = Some ''1.1.1.1'',
      github = Config_gist (Raw_text (Object [(''laptop'', ''1.1.1.1'')])),
      patch_ok = True, post_ok = True\<rparr> =
   \<lparr>publication = Updated_IP_in_gist, written = [Update_gist [(''laptop'', ''1.1.1.1'')]]\<rparr>"
  by (simp add: connectorMode_def getDeviceIp_def getAllGists_def getGistContent_def
      JSON_parse_def updateGist_def assign_def)

text \<open>
  C6, as amended. In the monitoring connector of tui.js, a tick that observes the
  address held in \<open>lastIP\<close> sends nothing to the store, reports no update and leaves
  \<open>lastIP\<close> as it is.
\<close>

theorem updateIP_unchanged_address:
  assumes "ip_answer n = Some (lastIP st)"
  shows "set_calls (updateIP cfg n st) = []
       \<and> report (updateIP cfg n st) = (if isUpdating st then Skipped else IP_unchanged)
       \<and> lastIP (after (updateIP cfg n st)) = lastIP st"
  using assms by (simp add: updateIP_def)

theorem updateIP_unchanged_address_witness:
  "updateIP example_config
     \<lparr>ip_answer = Some ''1.1.1.1'', gist_answer = Content (Some (Object [])),
      update_ok = True, save_ok = True\<rparr>
     \<lparr>lastIP = ''1.1.1.1'', isUpdating = False\<rparr> =
   \<lparr>after = \<lparr>lastIP = ''1.1.1.1'', isUpdating = False\<rparr>, set_calls = [],
    report = IP_unchanged\<rparr>"
proof -
  have h: "ip_answer \<lparr>ip_answer = Some ''1.1.1.1'', gist_answer = Content (Some (Object [])),
      update_ok = True, save_ok = True\<rparr> = Some (lastIP \<lparr>lastIP = ''1.1.1.1'', isUpdating = False\<rparr>)"
    by simp
  from updateIP_unchanged_address[OF h, where cfg = example_config]
  show ?thesis
    by (simp add: updateIP_def)
qed

text \<open>
  C7 fails on the connector of tui.js: \<open>updateIP\<close> assigns the address under
  \<open>config.domain\<close>, a property no configuration saved by \<open>setupWizard\<close> has, so the
  document it sends to the store maps the key \<open>undefined\<close>, not the connector's
  identifier (here \<open>laptop\<close>), to the observed address. In ip.js the identifier
  \<open>__proto__\<close> gets no entry at all.
\<close>

theorem updateIP_publishes_under_undefined:
  "set_calls (updateIP \<lparr>cfg_identifier = Some ''laptop'', cfg_domain = None, sshPort = 22\<rparr>
     \<lparr>ip_answer = Some ''5.5.5.5'',
      gist_answer = Content (Some (Object [(''server'', ''9.9.9.9'')])),
      update_ok = True, save_ok = True\<rparr>
     \<lparr>lastIP = ''1.1.1.1'', isUpdating = False\<rparr>) =
     [[(''server'', ''9.9.9.9''), (''undefined'', ''5.5.5.5'')]]
   \<and> written (connectorMode ''__proto__''
     \<lparr>ipify = Some ''5.5.5.5'',
      github = Config_gist (Raw_text (Object [(''server'', ''9.9.9.9'')])),
      patch_ok = True, post_ok = True\<rparr>) =
     [Update_gist [(''server'', ''9.9.9.9'')]]"
  by (simp add: updateIP_def get_content_def JSON_parse_def shown_def assign_def
      create_own_def array_index_def connectorMode_def getDeviceIp_def getAllGists_def
      getGistContent_def updateGist_def Let_def)

section \<open>Removing a firewall rule\<close>

text \<open>
  C8 fails on \<open>removeUFWRule\<close> of tui.js: the command it runs deletes a \<open>deny\<close> rule,
  so the \<open>allow\<close> rule that \<open>addUFWRule\<close> inserted for the address stays in the table.
\<close>

theorem removeUFWRule_leaves_allow_rule:
  "snd (removeUFWRule recording ''1.2.3.4'' example_config []) =
     [Ufw_delete Deny ''1.2.3.4'' 22]
   \<and> snd (addUFWRule ufw ''1.2.3.4'' example_config []) = [(Allow, ''1.2.3.4'', 22)]
   \<and> snd (removeUFWRule ufw ''1.2.3.4'' example_config
            (snd (addUFWRule ufw ''1.2.3.4'' example_config []))) =
       [(Allow, ''1.2.3.4'', 22)]"
  by (simp add: removeUFWRule_def addUFWRule_def recording_def example_config_def)

end
